theory Spec2Isabelle
  imports Complex_Main "HOL-Library.Sublist"
begin

section \<open>Event tables\<close>

text \<open>
  A pandas DataFrame is modelled by its column labels, in order, and its rows, in order.
  A row is a dictionary from column label to cell, as \<open>DataFrame.to_dict('records')\<close>
  gives it; column labels are unique, as they are in the tables of the statistics provider.
  A cell is a string code, a number, or a missing value (pandas' NaN / None).
\<close>

datatype cell = Str string | Num rat | Missing

type_synonym row = "string \<rightharpoonup> cell"

record frame =
  columns :: "string list"
  rows :: "row list"

datatype error = KeyError string | ZeroDivisionError | TypeError

fun and_then :: "error + 'a \<Rightarrow> ('a \<Rightarrow> error + 'b) \<Rightarrow> error + 'b" where
  "and_then (Inl e) f = Inl e"
| "and_then (Inr x) f = f x"

definition cell_of :: "row \<Rightarrow> string \<Rightarrow> cell" where
  "cell_of r c = (case r c of Some v \<Rightarrow> v | None \<Rightarrow> Missing)"

text \<open>\<open>df[cols]\<close> with a list of labels: the columns \<open>cols\<close>, in that order, of every
  row; KeyError when a label is not a column of \<open>df\<close>.\<close>

definition project :: "frame \<Rightarrow> string list \<Rightarrow> error + frame" where
  "project df cols =
     (case filter (\<lambda>c. c \<notin> set (columns df)) cols of
        [] \<Rightarrow> Inr \<lparr>columns = cols, rows = map (\<lambda>r. r |` set cols) (rows df)\<rparr>
      | c # _ \<Rightarrow> Inl (KeyError c))"

text \<open>\<open>Series.isin(codes)\<close> on one cell: a missing value or a number is in no list of
  string codes.\<close>

fun isin :: "cell \<Rightarrow> string list \<Rightarrow> bool" where
  "isin (Str s) codes = (s \<in> set codes)"
| "isin (Num x) codes = False"
| "isin Missing codes = False"

text \<open>\<open>data[data[c].isin(codes)]\<close>: \<open>data[c]\<close> raises KeyError when \<open>c\<close> is not a
  column; the boolean mask keeps the rows where it is true, in order, and all columns.\<close>

definition select_isin :: "frame \<Rightarrow> string \<Rightarrow> string list \<Rightarrow> error + frame" where
  "select_isin data c codes =
     (if c \<in> set (columns data)
      then Inr (data\<lparr>rows := filter (\<lambda>r. isin (cell_of r c) codes) (rows data)\<rparr>)
      else Inl (KeyError c))"

text \<open>\<open>data[data[c] == s]\<close> for a string \<open>s\<close>.\<close>

definition select_eq :: "frame \<Rightarrow> string \<Rightarrow> string \<Rightarrow> error + frame" where
  "select_eq data c s =
     (if c \<in> set (columns data)
      then Inr (data\<lparr>rows := filter (\<lambda>r. cell_of r c = Str s) (rows data)\<rparr>)
      else Inl (KeyError c))"

section \<open>The static category tables\<close>

definition pitch_type_groups :: "(string \<times> string list) list" where
  "pitch_type_groups =
     [(''fastball'', [''FF'', ''SI'', ''FC'']),
      (''breaking'', [''SL'', ''CU'', ''ST'', ''SV'', ''KC'']),
      (''offspeed'', [''FS'', ''CH''])]"

definition descriptions :: "(string \<times> string list) list" where
  "descriptions =
     [(''in play'', [''hit_into_play'']),
      (''swinging strike'', [''swinging_strike'', ''swinging_strike_blocked'', ''foul_tip'']),
      (''called strike'', [''called_strike'']),
      (''foul'', [''foul'']),
      (''ball'', [''ball'', ''blocked_ball'']),
      (''hit by pitch'', [''hit_by_pitch'']),
      (''swing'', [''hit_into_play'', ''swinging_strike'', ''swinging_strike_blocked'',
                   ''foul_tip'', ''foul''])]"

section \<open>The function player_data_filtered\<close>

definition columns22 :: "string list" where
  "columns22 =
     [''game_date'', ''pitch_type'', ''description'', ''events'', ''release_speed'', ''p_throws'',
      ''batter'', ''pitcher'', ''home_team'', ''away_team'', ''balls'', ''strikes'', ''bb_type'',
      ''plate_x'', ''plate_z'', ''sz_top'', ''sz_bot'', ''hit_distance_sc'', ''launch_speed'',
      ''launch_angle'', ''estimated_woba_using_speedangle'', ''woba_value'']"

text \<open>The three \<open>if\<close> statements of \<open>player_data_filtered\<close> (the Filter Engine), on the
  table \<open>data\<close> they start from. \<open>k in d\<close> on a dictionary is \<open>map_of d k \<noteq> None\<close>.\<close>

definition filter_engine :: "frame \<Rightarrow> string \<Rightarrow> string \<Rightarrow> string \<Rightarrow> error + frame" where
  "filter_engine data pitch_type pitch_description pitcher_handedness =
     and_then
       (case map_of pitch_type_groups pitch_type of
          Some codes \<Rightarrow> select_isin data ''pitch_type'' codes
        | None \<Rightarrow> Inr data)
       (\<lambda>data.
          and_then
            (case map_of descriptions pitch_description of
               Some codes \<Rightarrow> select_isin data ''description'' codes
             | None \<Rightarrow> Inr data)
            (\<lambda>data.
               if pitcher_handedness \<in> set [''L'', ''R'']
               then select_eq data ''p_throws'' pitcher_handedness
               else Inr data))"

text \<open>\<open>player_data_filtered\<close>, with the table that \<open>pyb.statcast_batter\<close> returned for the
  player and the date range in place of the four arguments that only select it.\<close>

definition player_data_filtered :: "frame \<Rightarrow> string \<Rightarrow> string \<Rightarrow> string \<Rightarrow> error + frame" where
  "player_data_filtered fetched pitch_type pitch_description pitcher_handedness =
     and_then (project fetched columns22)
       (\<lambda>data. filter_engine data pitch_type pitch_description pitcher_handedness)"

section \<open>Float arithmetic\<close>

text \<open>
  A finite Python float (an IEEE 754 binary64) is modelled by the rational number it denotes.
  An operation returns the double nearest to its exact result, ties going to the even
  significand. The exponent range is not modelled: quotients of two table lengths, the only
  values the scripts feed to these operations, are far from overflow and underflow.
\<close>

fun bit_length :: "nat \<Rightarrow> nat" where
  "bit_length n = (if n = 0 then 0 else Suc (bit_length (n div 2)))"

declare bit_length.simps [simp del]

text \<open>The binary exponent of a positive rational \<open>x\<close>: the \<open>e\<close> with \<open>2^e \<le> x < 2^(e+1)\<close>.\<close>

definition expo :: "rat \<Rightarrow> int" where
  "expo x =
     (if 1 \<le> x then int (bit_length (nat \<lfloor>x\<rfloor>)) - 1
      else - int (bit_length (nat (\<lceil>1 / x\<rceil> - 1))))"

definition round_half_even :: "rat \<Rightarrow> int" where
  "round_half_even x =
     (let f = \<lfloor>x\<rfloor>; d = x - of_int f
      in if d < 1 / 2 then f else if 1 / 2 < d then f + 1 else if even f then f else f + 1)"

definition to_double :: "rat \<Rightarrow> rat" where
  "to_double x =
     (if x = 0 then 0
      else let u = 2 powi (expo \<bar>x\<bar> - 52) in of_int (round_half_even (x / u)) * u)"

text \<open>\<open>a / b\<close> on two ints: the correctly rounded quotient, ZeroDivisionError for \<open>b = 0\<close>.\<close>

definition true_div :: "nat \<Rightarrow> nat \<Rightarrow> error + rat" where
  "true_div a b = (if b = 0 then Inl ZeroDivisionError else Inr (to_double (of_nat a / of_nat b)))"

text \<open>\<open>x * y\<close> on two floats.\<close>

definition float_mul :: "rat \<Rightarrow> rat \<Rightarrow> rat" where
  "float_mul x y = to_double (x * y)"

text \<open>\<open>round(x, ndigits)\<close> on a float: the decimal with \<open>ndigits\<close> places nearest to the
  exact value of \<open>x\<close> (ties to the even digit), converted back to the nearest double.\<close>

definition round_float :: "rat \<Rightarrow> nat \<Rightarrow> rat" where
  "round_float x ndigits = to_double (of_int (round_half_even (x * 10 ^ ndigits)) / 10 ^ ndigits)"

section \<open>Whiff rates\<close>

text \<open>\<open>round((len(a) / len(b)) * 100, 2)\<close>, the expression of every whiff rate.\<close>

definition whiff_rate :: "frame \<Rightarrow> frame \<Rightarrow> error + rat" where
  "whiff_rate a b =
     and_then (true_div (length (rows a)) (length (rows b)))
       (\<lambda>q. Inr (round_float (float_mul q 100) 2))"

text \<open>The whiff rate of the scripts for one pitch-type selector: both tables are fetched and
  filtered, the numerator first, and the rounded percentage of their lengths is taken.
  \<open>overall_whiff_rate\<close> is the case \<open>pitch_type = ''all''\<close>.\<close>

definition pitch_whiff_rate :: "frame \<Rightarrow> string \<Rightarrow> error + rat" where
  "pitch_whiff_rate fetched pitch_type =
     and_then (player_data_filtered fetched pitch_type ''swinging strike'' ''all'')
       (\<lambda>a. and_then (player_data_filtered fetched pitch_type ''swing'' ''all'')
          (\<lambda>b. whiff_rate a b))"

section \<open>Means of a column\<close>









section \<open>Selections in the words of the specification\<close>

text \<open>What the specification says a selector selects: a recognised group name selects the
  rows whose code is in the group's code set, \<open>''L''\<close> or \<open>''R''\<close> selects the rows
  thrown with that hand, and anything else selects every row.\<close>

definition pitch_type_selected :: "string \<Rightarrow> row \<Rightarrow> bool" where
  "pitch_type_selected p r =
     (case map_of pitch_type_groups p of
        None \<Rightarrow> True
      | Some codes \<Rightarrow> (\<exists>s \<in> set codes. cell_of r ''pitch_type'' = Str s))"

definition description_selected :: "string \<Rightarrow> row \<Rightarrow> bool" where
  "description_selected d r =
     (case map_of descriptions d of
        None \<Rightarrow> True
      | Some codes \<Rightarrow> (\<exists>s \<in> set codes. cell_of r ''description'' = Str s))"

definition handedness_selected :: "string \<Rightarrow> row \<Rightarrow> bool" where
  "handedness_selected h r = (if h = ''L'' \<or> h = ''R'' then cell_of r ''p_throws'' = Str h else True)"

definition event_table :: "frame \<Rightarrow> bool" where
  "event_table T =
     (''pitch_type'' \<in> set (columns T) \<and> ''description'' \<in> set (columns T) \<and>
      ''p_throws'' \<in> set (columns T))"

definition description_in :: "string list \<Rightarrow> row \<Rightarrow> bool" where
  "description_in codes r = isin (cell_of r ''description'') codes"

definition swinging_strike_codes :: "string list" where
  "swinging_strike_codes = [''swinging_strike'', ''swinging_strike_blocked'', ''foul_tip'']"

definition swing_codes :: "string list" where
  "swing_codes =
     [''hit_into_play'', ''swinging_strike'', ''swinging_strike_blocked'', ''foul_tip'', ''foul'']"

section \<open>Example tables\<close>

definition pitch :: "string \<Rightarrow> string \<Rightarrow> string \<Rightarrow> cell \<Rightarrow> row" where
  "pitch pt d h xw =
     map_of [(''pitch_type'', Str pt), (''description'', Str d), (''p_throws'', Str h),
             (''estimated_woba_using_speedangle'', xw)]"

definition example_columns :: "string list" where
  "example_columns = [''pitch_type'', ''description'', ''p_throws'', ''estimated_woba_using_speedangle'']"

definition four_pitches :: frame where
  "four_pitches =
     \<lparr>columns = example_columns,
      rows = [pitch ''FF'' ''swinging_strike'' ''L'' Missing,
              pitch ''SL'' ''foul'' ''R'' Missing,
              pitch ''FF'' ''ball'' ''L'' Missing,
              pitch ''SI'' ''hit_into_play'' ''R'' (Num (3/10))]\<rparr>"

definition fetched_example :: frame where
  "fetched_example =
     \<lparr>columns = ''spin_axis'' # columns22,
      rows = [(pitch ''FF'' ''foul'' ''L'' Missing)(''spin_axis'' \<mapsto> Num 200),
              (pitch ''CH'' ''ball'' ''R'' Missing)(''spin_axis'' \<mapsto> Num 120)]\<rparr>"

definition one_whiff :: frame where
  "one_whiff = four_pitches\<lparr>rows := [pitch ''FF'' ''swinging_strike'' ''L'' Missing]\<rparr>"

definition three_swings :: frame where
  "three_swings =
     four_pitches\<lparr>rows := [pitch ''FF'' ''swinging_strike'' ''L'' Missing,
                             pitch ''SL'' ''foul'' ''R'' Missing,
                             pitch ''SI'' ''hit_into_play'' ''R'' (Num (3/10))]\<rparr>"

definition no_pitches :: frame where
  "no_pitches = four_pitches\<lparr>rows := []\<rparr>"


definition outcome :: "string \<Rightarrow> row" where
  "outcome d = pitch ''FF'' d ''R'' Missing"

text \<open>Ten rows: three \<open>swinging_strike\<close>, one \<open>foul_tip\<close>, two \<open>foul\<close>, four \<open>ball\<close>.\<close>

definition ten_pitches_tip :: frame where
  "ten_pitches_tip =
     \<lparr>columns = example_columns,
      rows = [outcome ''swinging_strike'', outcome ''swinging_strike'', outcome ''swinging_strike'',
              outcome ''foul_tip'', outcome ''foul'', outcome ''foul'',
              outcome ''ball'', outcome ''ball'', outcome ''ball'', outcome ''ball'']\<rparr>"

text \<open>Ten rows: three \<open>swinging_strike\<close>, one \<open>hit_into_play\<close>, two \<open>foul\<close>, four others.\<close>

definition ten_pitches :: frame where
  "ten_pitches =
     \<lparr>columns = example_columns,
      rows = [outcome ''swinging_strike'', outcome ''swinging_strike'', outcome ''swinging_strike'',
              outcome ''hit_into_play'', outcome ''foul'', outcome ''foul'',
              outcome ''ball'', outcome ''called_strike'', outcome ''ball'',
              outcome ''blocked_ball'']\<rparr>"

section \<open>The rows the Filter Engine keeps\<close>

lemma isin_iff: "isin v codes \<longleftrightarrow> (\<exists>s \<in> set codes. v = Str s)"
  by (cases v) auto

lemma select_isin_rows:
  "c \<in> set (columns T) \<Longrightarrow>
   select_isin T c codes = Inr (T\<lparr>rows := filter (\<lambda>r. \<exists>s \<in> set codes. cell_of r c = Str s) (rows T)\<rparr>)"
  by (simp add: select_isin_def isin_iff)

lemma select_eq_rows:
  "c \<in> set (columns T) \<Longrightarrow>
   select_eq T c s = Inr (T\<lparr>rows := filter (\<lambda>r. cell_of r c = Str s) (rows T)\<rparr>)"
  by (simp add: select_eq_def)

lemma filter_engine_rows:
  assumes "event_table T"
  shows "filter_engine T p d h =
         Inr (T\<lparr>rows := filter (\<lambda>r. pitch_type_selected p r \<and> description_selected d r \<and>
                                     handedness_selected h r) (rows T)\<rparr>)"
proof -
  from assms have c: "''pitch_type'' \<in> set (columns T)" "''description'' \<in> set (columns T)"
    "''p_throws'' \<in> set (columns T)"
    by (simp_all add: event_table_def)
  show ?thesis
    unfolding filter_engine_def pitch_type_selected_def description_selected_def
      handedness_selected_def
    using c
    by (auto simp add: select_isin_rows select_eq_rows split: option.splits intro!: filter_cong)
qed

section \<open>Identity law\<close>

lemma all_not_pitch_group: "map_of pitch_type_groups ''all'' = None"
  by (simp add: pitch_type_groups_def)

lemma all_not_description: "map_of descriptions ''all'' = None"
  by (simp add: descriptions_def)

text \<open>
  C2. With the sentinel \<open>''all''\<close> in all three dimensions the Filter Engine returns the
  table it was given, unchanged, for every table; \<open>player_data_filtered\<close> then returns the
  projection of the fetched table as it is.
\<close>

theorem filter_engine_all_identity:
  "filter_engine T ''all'' ''all'' ''all'' = Inr T \<and>
   player_data_filtered fetched ''all'' ''all'' ''all'' = project fetched columns22"
proof -
  have id: "\<And>T. filter_engine T ''all'' ''all'' ''all'' = Inr T"
    by (simp add: filter_engine_def all_not_pitch_group all_not_description)
  have "player_data_filtered fetched ''all'' ''all'' ''all'' = project fetched columns22"
    by (cases "project fetched columns22") (simp_all add: player_data_filtered_def id)
  with id show ?thesis by simp
qed

lemma selected_all [simp]:
  "pitch_type_selected ''all'' r" "description_selected ''all'' r" "handedness_selected ''all'' r"
  by (simp_all add: pitch_type_selected_def description_selected_def handedness_selected_def
      all_not_pitch_group all_not_description)

text \<open>
  C1. On every event table the Filter Engine returns a table with the same columns whose
  rows are a subsequence of the table's rows: exactly the rows that match in all three
  dimensions at once (the conjunction of the per-dimension matches). With a single
  recognised selector (a pitch-type group, an outcome group, or \<open>''L''\<close> / \<open>''R''\<close>) and
  \<open>''all''\<close> elsewhere, a row of the table is retained if and only if its raw code is a member
  of the selected group's code set (its handedness field equals the selector).
\<close>

theorem filter_engine_selects:
  assumes "event_table T"
  shows
    "(\<exists>T'. filter_engine T p d h = Inr T' \<and> columns T' = columns T \<and> subseq (rows T') (rows T) \<and>
        rows T' = filter (\<lambda>r. pitch_type_selected p r \<and> description_selected d r \<and>
                             handedness_selected h r) (rows T)) \<and>
     (\<forall>codes. map_of pitch_type_groups p = Some codes \<longrightarrow>
        (\<exists>T'. filter_engine T p ''all'' ''all'' = Inr T' \<and> subseq (rows T') (rows T) \<and>
           (\<forall>r \<in> set (rows T). r \<in> set (rows T') \<longleftrightarrow>
              (\<exists>s \<in> set codes. cell_of r ''pitch_type'' = Str s)))) \<and>
     (\<forall>codes. map_of descriptions d = Some codes \<longrightarrow>
        (\<exists>T'. filter_engine T ''all'' d ''all'' = Inr T' \<and> subseq (rows T') (rows T) \<and>
           (\<forall>r \<in> set (rows T). r \<in> set (rows T') \<longleftrightarrow>
              (\<exists>s \<in> set codes. cell_of r ''description'' = Str s)))) \<and>
     (h = ''L'' \<or> h = ''R'' \<longrightarrow>
        (\<exists>T'. filter_engine T ''all'' ''all'' h = Inr T' \<and> subseq (rows T') (rows T) \<and>
           (\<forall>r \<in> set (rows T). r \<in> set (rows T') \<longleftrightarrow> cell_of r ''p_throws'' = Str h)))"
proof (intro conjI allI impI)
  show "\<exists>T'. filter_engine T p d h = Inr T' \<and> columns T' = columns T \<and> subseq (rows T') (rows T) \<and>
        rows T' = filter (\<lambda>r. pitch_type_selected p r \<and> description_selected d r \<and>
                             handedness_selected h r) (rows T)"
    by (simp add: filter_engine_rows [OF assms])
next
  fix codes assume "map_of pitch_type_groups p = Some codes"
  then have "\<And>r. pitch_type_selected p r \<longleftrightarrow> (\<exists>s \<in> set codes. cell_of r ''pitch_type'' = Str s)"
    by (simp add: pitch_type_selected_def)
  then show "\<exists>T'. filter_engine T p ''all'' ''all'' = Inr T' \<and> subseq (rows T') (rows T) \<and>
           (\<forall>r \<in> set (rows T). r \<in> set (rows T') \<longleftrightarrow>
              (\<exists>s \<in> set codes. cell_of r ''pitch_type'' = Str s))"
    by (simp add: filter_engine_rows [OF assms])
next
  fix codes assume "map_of descriptions d = Some codes"
  then have "\<And>r. description_selected d r \<longleftrightarrow> (\<exists>s \<in> set codes. cell_of r ''description'' = Str s)"
    by (simp add: description_selected_def)
  then show "\<exists>T'. filter_engine T ''all'' d ''all'' = Inr T' \<and> subseq (rows T') (rows T) \<and>
           (\<forall>r \<in> set (rows T). r \<in> set (rows T') \<longleftrightarrow>
              (\<exists>s \<in> set codes. cell_of r ''description'' = Str s))"
    by (simp add: filter_engine_rows [OF assms])
next
  assume "h = ''L'' \<or> h = ''R''"
  then have "\<And>r. handedness_selected h r \<longleftrightarrow> cell_of r ''p_throws'' = Str h"
    by (auto simp add: handedness_selected_def)
  then show "\<exists>T'. filter_engine T ''all'' ''all'' h = Inr T' \<and> subseq (rows T') (rows T) \<and>
           (\<forall>r \<in> set (rows T). r \<in> set (rows T') \<longleftrightarrow> cell_of r ''p_throws'' = Str h)"
    by (simp add: filter_engine_rows [OF assms])
qed

lemma event_table_four_pitches: "event_table four_pitches"
  by (simp add: event_table_def four_pitches_def example_columns_def)

lemma four_pitches_fastball_swing_R:
  "filter (\<lambda>r. pitch_type_selected ''fastball'' r \<and> description_selected ''swing'' r \<and>
                handedness_selected ''R'' r) (rows four_pitches) =
   [pitch ''SI'' ''hit_into_play'' ''R'' (Num (3/10))]"
  by (simp add: four_pitches_def pitch_type_selected_def
      description_selected_def handedness_selected_def pitch_type_groups_def descriptions_def
      cell_of_def pitch_def)

theorem filter_engine_selects_witness:
  "event_table four_pitches \<and>
   (\<exists>T'. filter_engine four_pitches ''fastball'' ''swing'' ''R'' = Inr T' \<and>
      rows T' = [pitch ''SI'' ''hit_into_play'' ''R'' (Num (3/10))]) \<and>
   map_of pitch_type_groups ''fastball'' = Some [''FF'', ''SI'', ''FC''] \<and>
   map_of descriptions ''swing'' =
     Some [''hit_into_play'', ''swinging_strike'', ''swinging_strike_blocked'', ''foul_tip'', ''foul'']"
proof -
  note th = filter_engine_selects [OF event_table_four_pitches, of "''fastball''" "''swing''" "''R''"]
  from th [THEN conjunct1] obtain T' where
    a: "filter_engine four_pitches ''fastball'' ''swing'' ''R'' = Inr T'" and
    b: "rows T' = filter (\<lambda>r. pitch_type_selected ''fastball'' r \<and> description_selected ''swing'' r \<and>
                handedness_selected ''R'' r) (rows four_pitches)"
    by auto
  have c: "map_of pitch_type_groups ''fastball'' = Some [''FF'', ''SI'', ''FC'']"
    by (simp add: pitch_type_groups_def)
  have d: "map_of descriptions ''swing'' =
     Some [''hit_into_play'', ''swinging_strike'', ''swinging_strike_blocked'', ''foul_tip'', ''foul'']"
    by (simp add: descriptions_def)
  from a b c d event_table_four_pitches show ?thesis
    by (simp add: four_pitches_fastball_swing_R)
qed

section \<open>Unrecognised selectors\<close>

lemma curveball_not_pitch_group: "map_of pitch_type_groups ''curveball'' = None"
  by (simp add: pitch_type_groups_def)

text \<open>
  C5. A pitch-type or outcome selector that is not a key of its table leaves its dimension
  unfiltered, exactly as \<open>''all''\<close> does, whatever the other selectors are, and the Filter
  Engine raises nothing because of it: with unrecognised selectors in both tables and no
  handedness filter the table comes back unchanged.
\<close>

theorem filter_engine_unrecognised_ignored:
  "(map_of pitch_type_groups p = None \<longrightarrow> filter_engine T p d h = filter_engine T ''all'' d h) \<and>
   (map_of descriptions d = None \<longrightarrow> filter_engine T p d h = filter_engine T p ''all'' h) \<and>
   (map_of pitch_type_groups p = None \<and> map_of descriptions d = None \<longrightarrow>
      filter_engine T p d ''all'' = Inr T)"
  by (simp add: filter_engine_def all_not_pitch_group all_not_description)

theorem filter_engine_unrecognised_ignored_witness:
  "map_of pitch_type_groups ''curveball'' = None \<and>
   filter_engine four_pitches ''curveball'' ''swing'' ''R'' =
     filter_engine four_pitches ''all'' ''swing'' ''R'' \<and>
   map_of descriptions ''curveball'' = None \<and>
   filter_engine four_pitches ''curveball'' ''curveball'' ''all'' = Inr four_pitches"
proof -
  have d: "map_of descriptions ''curveball'' = None"
    by (simp add: descriptions_def)
  from filter_engine_unrecognised_ignored [where p = "''curveball''" and d = "''swing''" and T = four_pitches and h = "''R''"]
    filter_engine_unrecognised_ignored [where p = "''curveball''" and d = "''curveball''" and T = four_pitches and h = "''R''"]
    curveball_not_pitch_group d
  show ?thesis by simp
qed

section \<open>Handedness\<close>

text \<open>
  C6. The handedness selector filters exactly when it is \<open>''L''\<close> or \<open>''R''\<close>: the rows
  kept are then those whose \<open>p_throws\<close> field equals it, among the rows the other two
  selectors keep. Every other value, \<open>''all''\<close> included, leaves the handedness dimension
  unfiltered: alone it returns the table unchanged, and beside other selectors the result is
  what the other two dimensions select, the same as with \<open>''all''\<close>.
\<close>

theorem filter_engine_handedness:
  "(''p_throws'' \<in> set (columns T) \<and> (h = ''L'' \<or> h = ''R'') \<longrightarrow>
      filter_engine T ''all'' ''all'' h =
        Inr (T\<lparr>rows := filter (\<lambda>r. cell_of r ''p_throws'' = Str h) (rows T)\<rparr>)) \<and>
   (h \<noteq> ''L'' \<and> h \<noteq> ''R'' \<longrightarrow> filter_engine T p d h = filter_engine T p d ''all'') \<and>
   (h \<noteq> ''L'' \<and> h \<noteq> ''R'' \<longrightarrow> filter_engine T ''all'' ''all'' h = Inr T) \<and>
   filter_engine T ''all'' ''all'' ''all'' = Inr T \<and>
   (event_table T \<and> h \<noteq> ''L'' \<and> h \<noteq> ''R'' \<longrightarrow>
      filter_engine T p d h =
        Inr (T\<lparr>rows := filter (\<lambda>r. pitch_type_selected p r \<and> description_selected d r)
                             (rows T)\<rparr>)) \<and>
   (event_table T \<and> (h = ''L'' \<or> h = ''R'') \<longrightarrow>
      filter_engine T p d h =
        Inr (T\<lparr>rows := filter (\<lambda>r. pitch_type_selected p r \<and> description_selected d r \<and>
                                   cell_of r ''p_throws'' = Str h) (rows T)\<rparr>))"
proof (intro conjI impI)
  assume "''p_throws'' \<in> set (columns T) \<and> (h = ''L'' \<or> h = ''R'')"
  then show "filter_engine T ''all'' ''all'' h =
        Inr (T\<lparr>rows := filter (\<lambda>r. cell_of r ''p_throws'' = Str h) (rows T)\<rparr>)"
    by (simp add: filter_engine_def all_not_pitch_group all_not_description select_eq_rows)
next
  assume "h \<noteq> ''L'' \<and> h \<noteq> ''R''"
  then show "filter_engine T p d h = filter_engine T p d ''all''"
    by (simp add: filter_engine_def)
next
  assume "h \<noteq> ''L'' \<and> h \<noteq> ''R''"
  then show "filter_engine T ''all'' ''all'' h = Inr T"
    by (simp add: filter_engine_def all_not_pitch_group all_not_description)
next
  show "filter_engine T ''all'' ''all'' ''all'' = Inr T"
    by (simp add: filter_engine_def all_not_pitch_group all_not_description)
next
  assume "event_table T \<and> h \<noteq> ''L'' \<and> h \<noteq> ''R''"
  then show "filter_engine T p d h =
        Inr (T\<lparr>rows := filter (\<lambda>r. pitch_type_selected p r \<and> description_selected d r)
                             (rows T)\<rparr>)"
    by (simp add: filter_engine_rows handedness_selected_def)
next
  assume a: "event_table T \<and> (h = ''L'' \<or> h = ''R'')"
  then have "\<And>r. handedness_selected h r = (cell_of r ''p_throws'' = Str h)"
    by (auto simp add: handedness_selected_def)
  with a show "filter_engine T p d h =
        Inr (T\<lparr>rows := filter (\<lambda>r. pitch_type_selected p r \<and> description_selected d r \<and>
                                   cell_of r ''p_throws'' = Str h) (rows T)\<rparr>)"
    by (simp add: filter_engine_rows)
qed

theorem filter_engine_handedness_witness:
  "''p_throws'' \<in> set (columns four_pitches) \<and>
   filter_engine four_pitches ''all'' ''all'' ''L'' =
     Inr (four_pitches\<lparr>rows := [pitch ''FF'' ''swinging_strike'' ''L'' Missing,
                                 pitch ''FF'' ''ball'' ''L'' Missing]\<rparr>) \<and>
   ''left'' \<noteq> ''L'' \<and> ''left'' \<noteq> ''R'' \<and>
   filter_engine four_pitches ''fastball'' ''swing'' ''left'' =
     filter_engine four_pitches ''fastball'' ''swing'' ''all'' \<and>
   filter_engine four_pitches ''all'' ''all'' ''left'' = Inr four_pitches \<and>
   filter_engine four_pitches ''all'' ''all'' ''all'' = Inr four_pitches \<and>
   event_table four_pitches \<and>
   filter_engine four_pitches ''fastball'' ''swing'' ''left'' =
     Inr (four_pitches\<lparr>rows := [pitch ''FF'' ''swinging_strike'' ''L'' Missing,
                                 pitch ''SI'' ''hit_into_play'' ''R'' (Num (3/10))]\<rparr>)"
proof -
  have c: "''p_throws'' \<in> set (columns four_pitches)"
    by (simp add: four_pitches_def example_columns_def)
  have r: "filter (\<lambda>r. cell_of r ''p_throws'' = Str ''L'') (rows four_pitches) =
     [pitch ''FF'' ''swinging_strike'' ''L'' Missing, pitch ''FF'' ''ball'' ''L'' Missing]"
    by (simp add: four_pitches_def cell_of_def pitch_def)
  have q: "filter (\<lambda>r. pitch_type_selected ''fastball'' r \<and> description_selected ''swing'' r)
       (rows four_pitches) =
     [pitch ''FF'' ''swinging_strike'' ''L'' Missing,
      pitch ''SI'' ''hit_into_play'' ''R'' (Num (3/10))]"
    by (simp add: four_pitches_def pitch_type_selected_def description_selected_def
        pitch_type_groups_def descriptions_def cell_of_def pitch_def)
  have n: "''left'' \<noteq> ''L''" "''left'' \<noteq> ''R''" by simp_all
  note L = filter_engine_handedness [where T = four_pitches and h = "''L''"
      and p = "''fastball''" and d = "''swing''"]
  note left = filter_engine_handedness [where T = four_pitches and h = "''left''"
      and p = "''fastball''" and d = "''swing''"]
  from L c have 1: "filter_engine four_pitches ''all'' ''all'' ''L'' =
      Inr (four_pitches\<lparr>rows := filter (\<lambda>r. cell_of r ''p_throws'' = Str ''L'') (rows four_pitches)\<rparr>)"
    by blast
  from left n have 2: "filter_engine four_pitches ''fastball'' ''swing'' ''left'' =
     filter_engine four_pitches ''fastball'' ''swing'' ''all''"
    by blast
  from left n have 3: "filter_engine four_pitches ''all'' ''all'' ''left'' = Inr four_pitches"
    by blast
  from left have 4: "filter_engine four_pitches ''all'' ''all'' ''all'' = Inr four_pitches"
    by blast
  from left n event_table_four_pitches
  have 5: "filter_engine four_pitches ''fastball'' ''swing'' ''left'' =
     Inr (four_pitches\<lparr>rows := filter (\<lambda>r. pitch_type_selected ''fastball'' r \<and>
        description_selected ''swing'' r) (rows four_pitches)\<rparr>)"
    by blast
  from c n 1 2 3 4 5 event_table_four_pitches show ?thesis
    by (simp only: r q simp_thms)
qed

section \<open>The column projection\<close>

lemma project_columns22:
  "project fetched columns22 =
     (if set columns22 \<subseteq> set (columns fetched)
      then Inr \<lparr>columns = columns22, rows = map (\<lambda>r. r |` set columns22) (rows fetched)\<rparr>
      else Inl (KeyError (hd (filter (\<lambda>c. c \<notin> set (columns fetched)) columns22))))"
proof (cases "filter (\<lambda>c. c \<notin> set (columns fetched)) columns22")
  case Nil
  then have "set columns22 \<subseteq> set (columns fetched)"
    by (auto simp add: filter_empty_conv)
  with Nil show ?thesis by (simp add: project_def)
next
  case (Cons c cs)
  then have "c \<in> set (filter (\<lambda>c. c \<notin> set (columns fetched)) columns22)" by simp
  then have "\<not> set columns22 \<subseteq> set (columns fetched)" by auto
  with Cons show ?thesis by (simp add: project_def)
qed

lemma event_table_columns22: "columns T = columns22 \<Longrightarrow> event_table T"
  by (simp add: event_table_def columns22_def)

text \<open>
  C9. Whatever the three selectors are, a table returned by \<open>player_data_filtered\<close> has
  exactly the 22 columns of the fixed projection, in the order of the source, and its rows
  are rows of the projected table in their order. A table is returned whenever the fetched
  table has the 22 columns (otherwise the projection raises KeyError).
\<close>

theorem player_data_filtered_columns:
  "(\<forall>T'. player_data_filtered fetched p d h = Inr T' \<longrightarrow>
      columns T' = columns22 \<and>
      subseq (rows T') (map (\<lambda>r. r |` set columns22) (rows fetched))) \<and>
   (set columns22 \<subseteq> set (columns fetched) \<longrightarrow>
      (\<exists>T'. player_data_filtered fetched p d h = Inr T')) \<and>
   (\<not> set columns22 \<subseteq> set (columns fetched) \<longrightarrow>
      (\<exists>c. player_data_filtered fetched p d h = Inl (KeyError c))) \<and>
   columns22 =
     [''game_date'', ''pitch_type'', ''description'', ''events'', ''release_speed'', ''p_throws'',
      ''batter'', ''pitcher'', ''home_team'', ''away_team'', ''balls'', ''strikes'', ''bb_type'',
      ''plate_x'', ''plate_z'', ''sz_top'', ''sz_bot'', ''hit_distance_sc'', ''launch_speed'',
      ''launch_angle'', ''estimated_woba_using_speedangle'', ''woba_value''] \<and>
   length columns22 = 22"
proof -
  let ?data = "\<lparr>columns = columns22, rows = map (\<lambda>r. r |` set columns22) (rows fetched)\<rparr>"
  have et: "event_table ?data" by (simp add: event_table_columns22)
  have ok: "set columns22 \<subseteq> set (columns fetched) \<Longrightarrow>
      player_data_filtered fetched p d h =
        Inr (?data\<lparr>rows := filter (\<lambda>r. pitch_type_selected p r \<and> description_selected d r \<and>
                                         handedness_selected h r) (rows ?data)\<rparr>)"
    by (simp add: player_data_filtered_def project_columns22 filter_engine_rows [OF et])
  have bad: "\<not> set columns22 \<subseteq> set (columns fetched) \<Longrightarrow>
      \<exists>c. player_data_filtered fetched p d h = Inl (KeyError c)"
    by (simp add: player_data_filtered_def project_columns22)
  have len: "length columns22 = 22" by (simp add: columns22_def)
  show ?thesis
  proof (cases "set columns22 \<subseteq> set (columns fetched)")
    case True
    with ok len show ?thesis by (simp add: columns22_def [symmetric])
  next
    case False
    with bad len show ?thesis by (auto simp add: columns22_def [symmetric])
  qed
qed

theorem player_data_filtered_columns_witness:
  "set columns22 \<subseteq> set (columns fetched_example) \<and>
   (\<exists>T'. player_data_filtered fetched_example ''fastball'' ''all'' ''all'' = Inr T' \<and>
      columns T' = columns22 \<and> ''spin_axis'' \<notin> set (columns T'))"
proof -
  note th = player_data_filtered_columns [where fetched = fetched_example and p = "''fastball''"
      and d = "''all''" and h = "''all''"]
  have sub: "set columns22 \<subseteq> set (columns fetched_example)"
    by (auto simp add: fetched_example_def)
  with th obtain T' where
    r: "player_data_filtered fetched_example ''fastball'' ''all'' ''all'' = Inr T'"
    by blast
  with th have c: "columns T' = columns22" by blast
  have "''spin_axis'' \<notin> set columns22" by (simp add: columns22_def)
  with sub r c show ?thesis by simp
qed

section \<open>The category tables\<close>

text \<open>
  C8, as the claim states it, fails on the outcome table: the code \<open>foul\<close> belongs to the
  code set of the group \<open>foul\<close> and to the code set of the different group \<open>swing\<close>.
\<close>

theorem descriptions_groups_overlap:
  "map_of descriptions ''foul'' = Some [''foul''] \<and>
   map_of descriptions ''swing'' =
     Some [''hit_into_play'', ''swinging_strike'', ''swinging_strike_blocked'', ''foul_tip'', ''foul''] \<and>
   ''foul'' \<noteq> ''swing'' \<and>
   ''foul'' \<in> set [''foul''] \<inter>
     set [''hit_into_play'', ''swinging_strike'', ''swinging_strike_blocked'', ''foul_tip'', ''foul'']"
  by (simp add: descriptions_def)

text \<open>
  C8, amended. The groups of the pitch-type table are pairwise disjoint. In the outcome
  table the groups other than \<open>swing\<close> are pairwise disjoint, and the code set of \<open>swing\<close>
  is the union of the code sets of \<open>in play\<close>, \<open>swinging strike\<close> and \<open>foul\<close>. The string
  \<open>all\<close> is a group name in neither table, and no group name occurs twice in a table.
\<close>

theorem category_tables_disjoint:
  "(\<forall>(g1, c1) \<in> set pitch_type_groups. \<forall>(g2, c2) \<in> set pitch_type_groups.
      g1 \<noteq> g2 \<longrightarrow> set c1 \<inter> set c2 = {}) \<and>
   (\<forall>(g1, c1) \<in> set descriptions. \<forall>(g2, c2) \<in> set descriptions.
      g1 \<noteq> g2 \<and> g1 \<noteq> ''swing'' \<and> g2 \<noteq> ''swing'' \<longrightarrow> set c1 \<inter> set c2 = {}) \<and>
   (\<exists>sw ip ss fo. map_of descriptions ''swing'' = Some sw \<and>
      map_of descriptions ''in play'' = Some ip \<and>
      map_of descriptions ''swinging strike'' = Some ss \<and>
      map_of descriptions ''foul'' = Some fo \<and> set sw = set ip \<union> set ss \<union> set fo) \<and>
   map_of pitch_type_groups ''all'' = None \<and> map_of descriptions ''all'' = None \<and>
   distinct (map fst pitch_type_groups) \<and> distinct (map fst descriptions)"
proof (intro conjI)
  show "\<forall>(g1, c1) \<in> set pitch_type_groups. \<forall>(g2, c2) \<in> set pitch_type_groups.
      g1 \<noteq> g2 \<longrightarrow> set c1 \<inter> set c2 = {}"
    by code_simp
  show "\<forall>(g1, c1) \<in> set descriptions. \<forall>(g2, c2) \<in> set descriptions.
      g1 \<noteq> g2 \<and> g1 \<noteq> ''swing'' \<and> g2 \<noteq> ''swing'' \<longrightarrow> set c1 \<inter> set c2 = {}"
    by code_simp
  show "\<exists>sw ip ss fo. map_of descriptions ''swing'' = Some sw \<and>
      map_of descriptions ''in play'' = Some ip \<and>
      map_of descriptions ''swinging strike'' = Some ss \<and>
      map_of descriptions ''foul'' = Some fo \<and> set sw = set ip \<union> set ss \<union> set fo"
    by (auto simp add: descriptions_def)
  show "map_of pitch_type_groups ''all'' = None" by (rule all_not_pitch_group)
  show "map_of descriptions ''all'' = None" by (rule all_not_description)
  show "distinct (map fst pitch_type_groups)" by (simp add: pitch_type_groups_def)
  show "distinct (map fst descriptions)" by (simp add: descriptions_def)
qed

theorem category_tables_disjoint_witness:
  "(''fastball'', [''FF'', ''SI'', ''FC'']) \<in> set pitch_type_groups \<and>
   (''offspeed'', [''FS'', ''CH'']) \<in> set pitch_type_groups \<and>
   ''fastball'' \<noteq> ''offspeed'' \<and>
   set [''FF'', ''SI'', ''FC''] \<inter> set [''FS'', ''CH''] = {} \<and>
   (''ball'', [''ball'', ''blocked_ball'']) \<in> set descriptions \<and>
   (''foul'', [''foul'']) \<in> set descriptions \<and>
   ''ball'' \<noteq> ''foul'' \<and> ''ball'' \<noteq> ''swing'' \<and> ''foul'' \<noteq> ''swing'' \<and>
   set [''ball'', ''blocked_ball''] \<inter> set [''foul''] = {}"
proof -
  have a: "(''fastball'', [''FF'', ''SI'', ''FC'']) \<in> set pitch_type_groups"
    "(''offspeed'', [''FS'', ''CH'']) \<in> set pitch_type_groups"
    by (simp_all add: pitch_type_groups_def)
  have b: "(''ball'', [''ball'', ''blocked_ball'']) \<in> set descriptions"
    "(''foul'', [''foul'']) \<in> set descriptions"
    by (simp_all add: descriptions_def)
  have n: "''fastball'' \<noteq> ''offspeed''" "''ball'' \<noteq> ''foul''" "''ball'' \<noteq> ''swing''"
    "''foul'' \<noteq> ''swing''"
    by simp_all
  note pt = category_tables_disjoint [THEN conjunct1]
  note ds = category_tables_disjoint [THEN conjunct2, THEN conjunct1]
  from bspec [OF pt a(1)]
  have "\<forall>(g2, c2) \<in> set pitch_type_groups.
      ''fastball'' \<noteq> g2 \<longrightarrow> set [''FF'', ''SI'', ''FC''] \<inter> set c2 = {}"
    by (simp only: prod.case)
  from bspec [OF this a(2)]
  have 1: "set [''FF'', ''SI'', ''FC''] \<inter> set [''FS'', ''CH''] = {}"
    by simp
  from bspec [OF ds b(1)]
  have "\<forall>(g2, c2) \<in> set descriptions.
      ''ball'' \<noteq> g2 \<and> ''ball'' \<noteq> ''swing'' \<and> g2 \<noteq> ''swing'' \<longrightarrow>
        set [''ball'', ''blocked_ball''] \<inter> set c2 = {}"
    by (simp only: prod.case)
  from bspec [OF this b(2)]
  have 2: "set [''ball'', ''blocked_ball''] \<inter> set [''foul''] = {}"
    by simp
  from a b n 1 2 show ?thesis by (intro conjI)
qed

section \<open>Rounding to a double\<close>

lemma bit_length_0 [simp]: "bit_length 0 = 0"
  by (simp add: bit_length.simps [of 0])

lemma bit_length_Suc_0 [simp]: "bit_length (Suc 0) = Suc 0"
  by (simp add: bit_length.simps [of "Suc 0"])

lemma bit_length_lower: "0 < n \<Longrightarrow> 2 ^ (bit_length n - 1) \<le> n"
proof (induction n rule: bit_length.induct)
  case (1 n)
  show ?case
  proof (cases "n div 2 = 0")
    case True
    with 1 have "n = 1" by (simp add: div_eq_0_iff)
    then show ?thesis by simp
  next
    case False
    with 1 have ih: "2 ^ (bit_length (n div 2) - 1) \<le> n div 2" by simp
    from False have pos: "0 < bit_length (n div 2)"
      by (simp add: bit_length.simps [of "n div 2"])
    from 1 have "bit_length n = Suc (bit_length (n div 2))"
      by (simp add: bit_length.simps [of n])
    then have "(2::nat) ^ (bit_length n - 1) = 2 * 2 ^ (bit_length (n div 2) - 1)"
      using pos by (cases "bit_length (n div 2)") simp_all
    also have "\<dots> \<le> 2 * (n div 2)" using ih by simp
    also have "\<dots> \<le> n" by simp
    finally show ?thesis .
  qed
qed

lemma bit_length_upper: "n < 2 ^ bit_length n"
proof (induction n rule: bit_length.induct)
  case (1 n)
  show ?case
  proof (cases "n = 0")
    case True
    then show ?thesis by simp
  next
    case False
    with 1 have ih: "n div 2 < 2 ^ bit_length (n div 2)" by simp
    from False have "bit_length n = Suc (bit_length (n div 2))"
      by (simp add: bit_length.simps [of n])
    with ih show ?thesis by simp
  qed
qed

lemma round_half_even_ge: "of_int m \<le> x \<Longrightarrow> m \<le> round_half_even x"
proof -
  assume "of_int m \<le> x"
  then have "m \<le> \<lfloor>x\<rfloor>" by (simp add: le_floor_iff)
  then show ?thesis by (simp add: round_half_even_def Let_def)
qed

lemma round_half_even_le: "x \<le> of_int m \<Longrightarrow> round_half_even x \<le> m"
proof -
  assume le: "x \<le> of_int m"
  then have f: "\<lfloor>x\<rfloor> \<le> m" by (simp add: floor_le_iff) 
  have "x - of_int \<lfloor>x\<rfloor> \<ge> 1 / 2 \<Longrightarrow> \<lfloor>x\<rfloor> + 1 \<le> m"
  proof -
    assume "x - of_int \<lfloor>x\<rfloor> \<ge> 1 / 2"
    then have "of_int \<lfloor>x\<rfloor> < x" by simp
    with le have "(of_int \<lfloor>x\<rfloor> :: rat) < of_int m" by simp
    then show ?thesis by simp
  qed
  with f show ?thesis by (auto simp add: round_half_even_def Let_def)
qed

lemma to_double_nonneg: "0 \<le> x \<Longrightarrow> 0 \<le> to_double x"
proof -
  assume x: "0 \<le> x"
  let ?u = "(2::rat) powi (expo \<bar>x\<bar> - 52)"
  have u: "0 < ?u" by simp
  with x have "of_int 0 \<le> x / ?u" by simp
  then have "0 \<le> round_half_even (x / ?u)" by (rule round_half_even_ge)
  with u show ?thesis by (simp add: to_double_def Let_def)
qed

lemma expo_le: "0 < x \<Longrightarrow> x \<le> 2 ^ k \<Longrightarrow> expo x \<le> int k"
proof (cases "1 \<le> x")
  case True
  assume x: "x \<le> 2 ^ k"
  let ?n = "nat \<lfloor>x\<rfloor>"
  from True have n: "0 < ?n" by simp
  from x have "\<lfloor>x\<rfloor> \<le> \<lfloor>(2::rat) ^ k\<rfloor>" by (rule floor_mono)
  then have "\<lfloor>x\<rfloor> \<le> 2 ^ k" by simp
  then have "?n \<le> 2 ^ k" by (simp add: nat_le_iff)
  with bit_length_lower [OF n] have "(2::nat) ^ (bit_length ?n - 1) \<le> 2 ^ k"
    by (rule order_trans)
  then have "bit_length ?n - 1 \<le> k" by simp
  with True show ?thesis by (simp add: expo_def)
next
  case False
  then show ?thesis by (simp add: expo_def)
qed

lemma to_double_le:
  assumes "0 \<le> x" and "x \<le> of_int b" and "x \<le> 2 ^ 52"
  shows "to_double x \<le> of_int b"
proof (cases "x = 0")
  case True
  with assms show ?thesis by (simp add: to_double_def)
next
  case False
  with assms have pos: "0 < x" by simp
  from expo_le [OF pos assms(3)] have e: "expo x \<le> 52" by simp
  define k where "k = nat (52 - expo x)"
  have u: "(2::rat) powi (expo \<bar>x\<bar> - 52) = 1 / 2 ^ k"
  proof -
    from e have "expo x - 52 = - int k" by (simp add: k_def)
    with pos show ?thesis by (simp add: power_int_minus_divide)
  qed
  have "x * 2 ^ k \<le> of_int b * 2 ^ k" using assms(2) by simp
  then have "x * 2 ^ k \<le> of_int (b * 2 ^ k)" by simp
  then have "round_half_even (x * 2 ^ k) \<le> b * 2 ^ k" by (rule round_half_even_le)
  then have "(of_int (round_half_even (x * 2 ^ k)) :: rat) \<le> of_int (b * 2 ^ k)"
    by (simp only: of_int_le_iff)
  then have "(of_int (round_half_even (x * 2 ^ k)) :: rat) / 2 ^ k \<le> of_int b"
    by (simp add: divide_le_eq)
  with False u show ?thesis by (simp add: to_double_def Let_def)
qed

lemma bit_length_pos: "0 < n \<Longrightarrow> 0 < bit_length n"
  by (simp add: bit_length.simps [of n])

lemma expo_bounds:
  assumes "0 < x"
  shows "2 powi expo x \<le> x \<and> x < 2 powi (expo x + 1)"
proof (cases "1 \<le> x")
  case True
  let ?n = "nat \<lfloor>x\<rfloor>"
  from True have n: "0 < ?n" by simp
  from True have fl: "of_nat ?n = (of_int \<lfloor>x\<rfloor> :: rat)" by simp
  have e: "expo x = int (bit_length ?n - 1)"
    using True bit_length_pos [OF n] by (simp add: expo_def)
  have e1: "expo x + 1 = int (bit_length ?n)"
    using True bit_length_pos [OF n] by (simp add: expo_def)
  from bit_length_lower [OF n] have "(of_nat (2 ^ (bit_length ?n - 1)) :: rat) \<le> of_nat ?n"
    by (simp only: of_nat_le_iff)
  then have "(2::rat) ^ (bit_length ?n - 1) \<le> of_int \<lfloor>x\<rfloor>" by (simp add: fl)
  also have "\<dots> \<le> x" by simp
  finally have lo: "2 powi expo x \<le> x" by (simp add: e)
  from bit_length_upper [of ?n] have "?n + 1 \<le> 2 ^ bit_length ?n" by linarith
  then have "(of_nat (?n + 1) :: rat) \<le> of_nat (2 ^ bit_length ?n)"
    by (simp only: of_nat_le_iff)
  then have "of_int \<lfloor>x\<rfloor> + 1 \<le> (2::rat) ^ bit_length ?n" by (simp add: fl)
  moreover have "x < of_int \<lfloor>x\<rfloor> + 1" by linarith
  ultimately have "x < 2 ^ bit_length ?n" by simp
  then have hi: "x < 2 powi (expo x + 1)" by (simp add: e1)
  from lo hi show ?thesis ..
next
  case False
  let ?y = "1 / x"
  let ?m = "nat (\<lceil>?y\<rceil> - 1)"
  from False assms have y: "1 < ?y" by simp
  then have c2: "2 \<le> \<lceil>?y\<rceil>" by linarith
  then have m: "0 < ?m" by linarith
  from c2 have "0 \<le> \<lceil>?y\<rceil> - 1" by linarith
  then have "(of_nat ?m :: rat) = of_int (\<lceil>?y\<rceil> - 1)" by (rule of_nat_nat)
  then have fm: "(of_nat ?m :: rat) = of_int \<lceil>?y\<rceil> - 1" by (simp only: of_int_diff of_int_1)
  have m_lt: "of_nat ?m < ?y" unfolding fm by linarith
  have y_le: "?y \<le> of_nat ?m + 1" unfolding fm by simp
  let ?k = "bit_length ?m"
  have e: "expo x = - int ?k" using False by (simp add: expo_def)
  have e1: "expo x + 1 = - int (?k - 1)"
    using False bit_length_pos [OF m] by (simp add: expo_def)
  from bit_length_upper [of ?m] have "?m + 1 \<le> 2 ^ ?k" by linarith
  then have "(of_nat (?m + 1) :: rat) \<le> of_nat (2 ^ ?k)" by (simp only: of_nat_le_iff)
  with y_le have "?y \<le> 2 ^ ?k" by simp
  with assms have "1 \<le> x * 2 ^ ?k" by (simp add: field_simps)
  then have "1 / 2 ^ ?k \<le> x" by (simp add: field_simps)
  moreover have "(2::rat) powi expo x = 1 / 2 ^ ?k"
    by (simp only: e power_int_minus_divide power_int_of_nat)
  ultimately have lo: "2 powi expo x \<le> x" by simp
  from bit_length_lower [OF m] have "(of_nat (2 ^ (?k - 1)) :: rat) \<le> of_nat ?m"
    by (simp only: of_nat_le_iff)
  moreover have "(of_nat (2 ^ (?k - 1)) :: rat) = 2 ^ (?k - 1)" by simp
  ultimately have "(2::rat) ^ (?k - 1) < ?y" using m_lt by linarith
  with assms have "x * 2 ^ (?k - 1) < 1" by (simp add: field_simps)
  then have "x < 1 / 2 ^ (?k - 1)" by (simp add: field_simps)
  moreover have "(2::rat) powi (expo x + 1) = 1 / 2 ^ (?k - 1)"
    by (simp only: e1 power_int_minus_divide power_int_of_nat)
  ultimately have hi: "x < 2 powi (expo x + 1)" by simp
  from lo hi show ?thesis ..
qed

lemma round_half_even_near: "\<bar>of_int (round_half_even y) - y\<bar> \<le> 1 / 2"
proof -
  have "of_int \<lfloor>y\<rfloor> \<le> y" and "y < of_int \<lfloor>y\<rfloor> + 1" by linarith+
  then show ?thesis by (auto simp add: round_half_even_def Let_def)
qed

text \<open>\<open>to_double\<close> is rounding to 53 significant bits: the result of a positive \<open>x\<close> is a
  multiple \<open>m * 2^(e - 52)\<close> of the unit in the last place with \<open>2^52 \<le> m \<le> 2^53\<close>, where
  \<open>e\<close> is the binary exponent of \<open>x\<close>, and it is at most half a unit away from \<open>x\<close>.\<close>

lemma to_double_nearest:
  assumes "0 < x"
  shows "\<exists>m. to_double x = of_int m * 2 powi (expo x - 52) \<and> 2 ^ 52 \<le> m \<and> m \<le> 2 ^ 53 \<and>
           \<bar>to_double x - x\<bar> \<le> 2 powi (expo x - 52) / 2"
proof -
  let ?u = "(2::rat) powi (expo x - 52)"
  let ?m = "round_half_even (x / ?u)"
  have u: "0 < ?u" by simp
  from assms have v: "to_double x = of_int ?m * ?u" by (simp add: to_double_def Let_def)
  have p: "(2::rat) powi expo x = 2 ^ 52 * ?u" "(2::rat) powi (expo x + 1) = 2 ^ 53 * ?u"
    by (simp_all add: power_int_diff power_int_add)
  from expo_bounds [OF assms] have "2 ^ 52 * ?u \<le> x" and "x < 2 ^ 53 * ?u"
    by (simp_all only: p)
  with u have q: "of_int (2 ^ 52) \<le> x / ?u" "x / ?u \<le> of_int (2 ^ 53)"
    by (simp_all add: le_divide_eq divide_le_eq)
  have m: "2 ^ 52 \<le> ?m" "?m \<le> 2 ^ 53"
    using round_half_even_ge [OF q(1)] round_half_even_le [OF q(2)] by simp_all
  have "to_double x - x = (of_int ?m - x / ?u) * ?u" using u by (simp add: v field_simps)
  then have "\<bar>to_double x - x\<bar> = \<bar>of_int ?m - x / ?u\<bar> * ?u"
    using u by (simp add: abs_mult)
  also have "\<dots> \<le> (1 / 2) * ?u"
    using round_half_even_near [of "x / ?u"] u by (intro mult_right_mono) simp_all
  finally have "\<bar>to_double x - x\<bar> \<le> ?u / 2" by simp
  with v m show ?thesis by blast
qed

section \<open>The ratio-percentage\<close>

lemma whiff_rate_zero_division: "rows b = [] \<Longrightarrow> whiff_rate a b = Inl ZeroDivisionError"
  by (simp add: whiff_rate_def true_div_def)

lemma whiff_rate_value:
  "rows b \<noteq> [] \<Longrightarrow>
   whiff_rate a b =
     Inr (round_float (float_mul (to_double (of_nat (length (rows a)) / of_nat (length (rows b)))) 100) 2)"
  by (simp add: whiff_rate_def true_div_def)

lemma round_float_2_bounds:
  assumes "0 \<le> m" and "m \<le> 100"
  shows "\<exists>k. round_float m 2 = to_double (of_int k / 100) \<and> 0 \<le> k \<and> k \<le> 10000 \<and>
           0 \<le> round_float m 2 \<and> round_float m 2 \<le> 100"
proof -
  let ?k = "round_half_even (m * 10 ^ 2)"
  from assms have "of_int 0 \<le> m * 10 ^ 2" by simp
  then have k0: "0 \<le> ?k" by (rule round_half_even_ge)
  from assms have "m * 10 ^ 2 \<le> of_int 10000" by simp
  then have k1: "?k \<le> 10000" by (rule round_half_even_le)
  have v: "round_float m 2 = to_double (of_int ?k / 100)"
    by (simp add: round_float_def)
  from k0 have a: "(0::rat) \<le> of_int ?k / 100" by simp
  from k1 have "(of_int ?k :: rat) \<le> of_int 10000" by (simp only: of_int_le_iff)
  then have b: "(of_int ?k :: rat) / 100 \<le> of_int 100" by simp
  then have c: "(of_int ?k :: rat) / 100 \<le> 2 ^ 52" by simp
  from to_double_nonneg [OF a] to_double_le [OF a b c] v k0 k1 show ?thesis
    by auto
qed

lemma whiff_rate_bounds:
  assumes "length (rows a) \<le> length (rows b)" and "rows b \<noteq> []"
  shows "\<exists>x k. whiff_rate a b = Inr x \<and> x = to_double (of_int k / 100) \<and> 0 \<le> k \<and> k \<le> 10000 \<and>
           0 \<le> x \<and> x \<le> 100"
proof -
  let ?n = "length (rows a)" and ?d = "length (rows b)"
  let ?q = "to_double (of_nat ?n / of_nat ?d)"
  from assms have d: "0 < ?d" by simp
  have q0: "(0::rat) \<le> of_nat ?n / of_nat ?d" by simp
  from assms(1) d have q1: "(of_nat ?n :: rat) / of_nat ?d \<le> of_int 1"
    by (simp add: divide_le_eq)
  then have q2: "(of_nat ?n :: rat) / of_nat ?d \<le> 2 ^ 52" by simp
  from to_double_nonneg [OF q0] have a0: "0 \<le> ?q" .
  from to_double_le [OF q0 q1 q2] have a1: "?q \<le> 1" by simp
  from a0 have m0: "0 \<le> ?q * 100" by simp
  from a1 have m1: "?q * 100 \<le> of_int 100" by simp
  then have m2: "?q * 100 \<le> 2 ^ 52" by simp
  from to_double_nonneg [OF m0] have b0: "0 \<le> float_mul ?q 100" by (simp add: float_mul_def)
  from to_double_le [OF m0 m1 m2] have b1: "float_mul ?q 100 \<le> 100" by (simp add: float_mul_def)
  from round_float_2_bounds [OF b0 b1] whiff_rate_value [OF assms(2), of a] show ?thesis
    by auto
qed

lemma to_double_0 [simp]: "to_double 0 = 0"
  by (simp add: to_double_def)

lemma round_half_even_0 [simp]: "round_half_even 0 = 0"
  by (simp add: round_half_even_def)

lemma whiff_rate_empty_numerator: "rows a = [] \<Longrightarrow> rows b \<noteq> [] \<Longrightarrow> whiff_rate a b = Inr 0"
  by (simp add: whiff_rate_value float_mul_def round_float_def)

text \<open>
  C3. The ratio-percentage \<open>round(len(num) / len(den) * 100, 2)\<close>: when the rows of \<open>num\<close>
  are a subsequence of the rows of \<open>den\<close> and \<open>den\<close> has a row, it is a number between 0 and
  100, the double nearest to a decimal with two places; it is 0 when \<open>num\<close> has no row and
  \<open>den\<close> has one; and it is ZeroDivisionError, not a number, when \<open>den\<close> has no row.
\<close>

theorem whiff_rate_range:
  "(subseq (rows num) (rows den) \<and> rows den \<noteq> [] \<longrightarrow>
      (\<exists>x k. whiff_rate num den = Inr x \<and> x = to_double (of_int k / 100) \<and>
         0 \<le> k \<and> k \<le> 10000 \<and> 0 \<le> x \<and> x \<le> 100)) \<and>
   (rows num = [] \<and> rows den \<noteq> [] \<longrightarrow> whiff_rate num den = Inr 0) \<and>
   (rows den = [] \<longrightarrow> whiff_rate num den = Inl ZeroDivisionError)"
proof (intro conjI impI)
  assume "subseq (rows num) (rows den) \<and> rows den \<noteq> []"
  then have "length (rows num) \<le> length (rows den)" and "rows den \<noteq> []"
    by (auto dest: list_emb_length)
  then show "\<exists>x k. whiff_rate num den = Inr x \<and> x = to_double (of_int k / 100) \<and>
         0 \<le> k \<and> k \<le> 10000 \<and> 0 \<le> x \<and> x \<le> 100"
    by (rule whiff_rate_bounds)
next
  assume "rows num = [] \<and> rows den \<noteq> []"
  then show "whiff_rate num den = Inr 0" by (simp add: whiff_rate_empty_numerator)
next
  assume "rows den = []"
  then show "whiff_rate num den = Inl ZeroDivisionError" by (rule whiff_rate_zero_division)
qed

lemma one_third_percentage:
  "round_float (float_mul (to_double (1 / 3)) 100) 2 = to_double (3333 / 100)"
  by code_simp

theorem whiff_rate_range_witness:
  "subseq (rows one_whiff) (rows three_swings) \<and> rows three_swings \<noteq> [] \<and>
   whiff_rate one_whiff three_swings = Inr (to_double (3333 / 100)) \<and>
   rows no_pitches = [] \<and> whiff_rate no_pitches three_swings = Inr 0 \<and>
   whiff_rate one_whiff no_pitches = Inl ZeroDivisionError"
proof -
  have s: "subseq (rows one_whiff) (rows three_swings)"
    by (simp add: one_whiff_def three_swings_def)
  have d: "rows three_swings \<noteq> []" by (simp add: three_swings_def)
  have e: "rows no_pitches = []" by (simp add: no_pitches_def)
  from whiff_rate_range [of one_whiff three_swings] s d
  obtain x where x: "whiff_rate one_whiff three_swings = Inr x" by blast
  have "whiff_rate one_whiff three_swings = Inr (to_double (3333 / 100))"
    using whiff_rate_value [OF d, of one_whiff] one_third_percentage
    by (simp add: one_whiff_def three_swings_def)
  moreover from whiff_rate_range [of no_pitches three_swings] e d
  have "whiff_rate no_pitches three_swings = Inr 0" by blast
  moreover from whiff_rate_range [of one_whiff no_pitches] e
  have "whiff_rate one_whiff no_pitches = Inl ZeroDivisionError" by blast
  ultimately show ?thesis using s d e by simp
qed

section \<open>The concrete whiff-rate scenario\<close>

lemma description_in_outcome [simp]: "description_in codes (outcome d) \<longleftrightarrow> d \<in> set codes"
  by (simp add: description_in_def outcome_def pitch_def cell_of_def)

lemma description_selected_swinging_strike:
  "description_selected ''swinging strike'' r = description_in swinging_strike_codes r"
  by (simp add: description_selected_def descriptions_def description_in_def isin_iff
      swinging_strike_codes_def)

lemma description_selected_swing:
  "description_selected ''swing'' r = description_in swing_codes r"
  by (simp add: description_selected_def descriptions_def description_in_def isin_iff
      swing_codes_def)

lemma filter_engine_swinging_strike:
  "event_table T \<Longrightarrow>
   filter_engine T ''all'' ''swinging strike'' ''all'' =
     Inr (T\<lparr>rows := filter (description_in swinging_strike_codes) (rows T)\<rparr>)"
  by (simp add: filter_engine_rows description_selected_swinging_strike [abs_def])

lemma filter_engine_swing:
  "event_table T \<Longrightarrow>
   filter_engine T ''all'' ''swing'' ''all'' =
     Inr (T\<lparr>rows := filter (description_in swing_codes) (rows T)\<rparr>)"
  by (simp add: filter_engine_rows description_selected_swing [abs_def])

lemma three_of_six_percentage:
  "round_float (float_mul (to_double (1 / 2)) 100) 2 = 50"
  by code_simp

lemma four_of_six_percentage:
  "round_float (float_mul (to_double (2 / 3)) 100) 2 = to_double (6667 / 100) \<and>
   to_double (6667 / 100) \<noteq> 50"
  by code_simp

lemma event_table_ten_pitches_tip: "event_table ten_pitches_tip"
  by (simp add: event_table_def ten_pitches_tip_def example_columns_def)

lemma event_table_ten_pitches: "event_table ten_pitches"
  by (simp add: event_table_def ten_pitches_def example_columns_def)

text \<open>
  C7, as the claim states it, fails: in this table of 10 rows 3 rows have the outcome code
  \<open>swinging_strike\<close> and 6 rows have a code of the \<open>swing\<close> group, but the row with
  \<open>foul_tip\<close> is in the \<open>swinging strike\<close> group too, so the two filtered tables have 4
  and 6 rows and the percentage is 66.67.
\<close>

theorem whiff_rate_scenario_foul_tip:
  "length (rows ten_pitches_tip) = 10 \<and>
   length (filter (description_in [''swinging_strike'']) (rows ten_pitches_tip)) = 3 \<and>
   length (filter (description_in swing_codes) (rows ten_pitches_tip)) = 6 \<and>
   filter_engine ten_pitches_tip ''all'' ''swinging strike'' ''all'' =
     Inr (ten_pitches_tip\<lparr>rows := take 4 (rows ten_pitches_tip)\<rparr>) \<and>
   filter_engine ten_pitches_tip ''all'' ''swing'' ''all'' =
     Inr (ten_pitches_tip\<lparr>rows := take 6 (rows ten_pitches_tip)\<rparr>) \<and>
   whiff_rate (ten_pitches_tip\<lparr>rows := take 4 (rows ten_pitches_tip)\<rparr>)
              (ten_pitches_tip\<lparr>rows := take 6 (rows ten_pitches_tip)\<rparr>) =
     Inr (to_double (6667 / 100)) \<and>
   to_double (6667 / 100) \<noteq> 50"
proof -
  have r: "rows ten_pitches_tip =
      [outcome ''swinging_strike'', outcome ''swinging_strike'', outcome ''swinging_strike'',
       outcome ''foul_tip'', outcome ''foul'', outcome ''foul'',
       outcome ''ball'', outcome ''ball'', outcome ''ball'', outcome ''ball'']"
    by (simp add: ten_pitches_tip_def)
  have a: "filter (description_in swinging_strike_codes) (rows ten_pitches_tip) =
      take 4 (rows ten_pitches_tip)"
    by (simp add: r swinging_strike_codes_def)
  have b: "filter (description_in swing_codes) (rows ten_pitches_tip) =
      take 6 (rows ten_pitches_tip)"
    by (simp add: r swing_codes_def)
  have c: "length (filter (description_in [''swinging_strike'']) (rows ten_pitches_tip)) = 3"
    by (simp add: r)
  have len: "length (rows ten_pitches_tip) = 10" by (simp add: r)
  have w: "whiff_rate (ten_pitches_tip\<lparr>rows := take 4 (rows ten_pitches_tip)\<rparr>)
              (ten_pitches_tip\<lparr>rows := take 6 (rows ten_pitches_tip)\<rparr>) =
     Inr (to_double (6667 / 100))"
    using four_of_six_percentage by (simp add: whiff_rate_value r)
  from a b c len w four_of_six_percentage
    filter_engine_swinging_strike [OF event_table_ten_pitches_tip]
    filter_engine_swing [OF event_table_ten_pitches_tip]
  show ?thesis by simp
qed

text \<open>
  C7, amended. For every event table in which 3 rows have an outcome code of the
  \<open>swinging strike\<close> group (\<open>swinging_strike\<close>, \<open>swinging_strike_blocked\<close> or \<open>foul_tip\<close>)
  and 6 rows have a code of the \<open>swing\<close> group, filtering by \<open>swinging strike\<close> and by
  \<open>swing\<close> gives tables of 3 and 6 rows, and the ratio-percentage of the two is exactly 50.
\<close>

theorem whiff_rate_scenario:
  "event_table T \<and>
   length (filter (description_in swinging_strike_codes) (rows T)) = 3 \<and>
   length (filter (description_in swing_codes) (rows T)) = 6 \<longrightarrow>
   (\<exists>N D. filter_engine T ''all'' ''swinging strike'' ''all'' = Inr N \<and>
      filter_engine T ''all'' ''swing'' ''all'' = Inr D \<and>
      length (rows N) = 3 \<and> length (rows D) = 6 \<and> whiff_rate N D = Inr 50)"
proof (intro impI, elim conjE)
  assume et: "event_table T"
    and n: "length (filter (description_in swinging_strike_codes) (rows T)) = 3"
    and d: "length (filter (description_in swing_codes) (rows T)) = 6"
  let ?N = "T\<lparr>rows := filter (description_in swinging_strike_codes) (rows T)\<rparr>"
  let ?D = "T\<lparr>rows := filter (description_in swing_codes) (rows T)\<rparr>"
  from d have ne: "rows ?D \<noteq> []" by auto
  have "whiff_rate ?N ?D = Inr 50"
    using whiff_rate_value [OF ne, of ?N] n d three_of_six_percentage by simp
  with n d filter_engine_swinging_strike [OF et] filter_engine_swing [OF et]
  show "\<exists>N D. filter_engine T ''all'' ''swinging strike'' ''all'' = Inr N \<and>
      filter_engine T ''all'' ''swing'' ''all'' = Inr D \<and>
      length (rows N) = 3 \<and> length (rows D) = 6 \<and> whiff_rate N D = Inr 50"
    by simp
qed

theorem whiff_rate_scenario_witness:
  "event_table ten_pitches \<and> length (rows ten_pitches) = 10 \<and>
   length (filter (description_in [''swinging_strike'']) (rows ten_pitches)) = 3 \<and>
   length (filter (description_in swinging_strike_codes) (rows ten_pitches)) = 3 \<and>
   length (filter (description_in swing_codes) (rows ten_pitches)) = 6 \<and>
   (\<exists>N D. filter_engine ten_pitches ''all'' ''swinging strike'' ''all'' = Inr N \<and>
      filter_engine ten_pitches ''all'' ''swing'' ''all'' = Inr D \<and> whiff_rate N D = Inr 50)"
proof -
  have r: "rows ten_pitches =
      [outcome ''swinging_strike'', outcome ''swinging_strike'', outcome ''swinging_strike'',
       outcome ''hit_into_play'', outcome ''foul'', outcome ''foul'',
       outcome ''ball'', outcome ''called_strike'', outcome ''ball'', outcome ''blocked_ball'']"
    by (simp add: ten_pitches_def)
  have a: "length (filter (description_in swinging_strike_codes) (rows ten_pitches)) = 3"
    by (simp add: r swinging_strike_codes_def)
  have b: "length (filter (description_in swing_codes) (rows ten_pitches)) = 6"
    by (simp add: r swing_codes_def)
  have c: "length (filter (description_in [''swinging_strike'']) (rows ten_pitches)) = 3"
    by (simp add: r)
  have len: "length (rows ten_pitches) = 10" by (simp add: r)
  from whiff_rate_scenario [of ten_pitches] event_table_ten_pitches a b
  have "\<exists>N D. filter_engine ten_pitches ''all'' ''swinging strike'' ''all'' = Inr N \<and>
      filter_engine ten_pitches ''all'' ''swing'' ''all'' = Inr D \<and> whiff_rate N D = Inr 50"
    by blast
  with event_table_ten_pitches a b c len show ?thesis by simp
qed

section \<open>Swinging strikes are swings\<close>

lemma description_in_mono:
  "set cs \<subseteq> set ds \<Longrightarrow> description_in cs r \<Longrightarrow> description_in ds r"
  by (auto simp add: description_in_def isin_iff)

lemma swinging_strike_codes_subset: "set swinging_strike_codes \<subset> set swing_codes"
  by code_simp

lemma subseq_filter_implies:
  "(\<And>x. P x \<Longrightarrow> Q x) \<Longrightarrow> subseq (filter P xs) (filter Q xs)"
proof -
  assume imp: "\<And>x. P x \<Longrightarrow> Q x"
  then have "filter P xs = filter P (filter Q xs)"
    by (auto intro: filter_cong)
  then show ?thesis by (simp del: filter_filter)
qed

lemma swinging_strike_rows_subseq:
  "subseq
     (filter (\<lambda>r. pitch_type_selected p r \<and> description_selected ''swinging strike'' r \<and>
                  handedness_selected h r) xs)
     (filter (\<lambda>r. pitch_type_selected p r \<and> description_selected ''swing'' r \<and>
                  handedness_selected h r) xs)"
proof (rule subseq_filter_implies)
  fix r
  assume "pitch_type_selected p r \<and> description_selected ''swinging strike'' r \<and>
          handedness_selected h r"
  moreover have "description_selected ''swinging strike'' r \<Longrightarrow> description_selected ''swing'' r"
    unfolding description_selected_swinging_strike description_selected_swing
    by (rule description_in_mono [OF psubset_imp_subset [OF swinging_strike_codes_subset]])
  ultimately show "pitch_type_selected p r \<and> description_selected ''swing'' r \<and>
          handedness_selected h r"
    by simp
qed

lemma player_data_filtered_rows:
  "set columns22 \<subseteq> set (columns fetched) \<Longrightarrow>
   player_data_filtered fetched p d h =
     Inr \<lparr>columns = columns22,
          rows = filter (\<lambda>r. pitch_type_selected p r \<and> description_selected d r \<and>
                              handedness_selected h r)
                   (map (\<lambda>r. r |` set columns22) (rows fetched))\<rparr>"
proof -
  let ?data = "\<lparr>columns = columns22, rows = map (\<lambda>r. r |` set columns22) (rows fetched)\<rparr>"
  assume "set columns22 \<subseteq> set (columns fetched)"
  moreover have "event_table ?data" by (simp add: event_table_columns22)
  ultimately show ?thesis
    by (simp add: player_data_filtered_def project_columns22 filter_engine_rows)
qed

lemma player_data_filtered_KeyError:
  "\<not> set columns22 \<subseteq> set (columns fetched) \<Longrightarrow>
   \<exists>c. player_data_filtered fetched p d h = Inl (KeyError c)"
  by (simp add: player_data_filtered_def project_columns22)

lemma whiff_rate_Inr_bounds:
  assumes "subseq (rows a) (rows b)" and "whiff_rate a b = Inr x"
  shows "0 \<le> x \<and> x \<le> 100"
proof (cases "rows b = []")
  case True
  with assms(2) show ?thesis by (simp add: whiff_rate_zero_division)
next
  case False
  from assms(1) have "length (rows a) \<le> length (rows b)" by (rule list_emb_length)
  from whiff_rate_bounds [OF this False] assms(2) show ?thesis by auto
qed

text \<open>
  C10. In the outcome table the code set of \<open>swinging strike\<close> is
  \<open>{swinging_strike, swinging_strike_blocked, foul_tip}\<close>, a strict subset of the code set of
  \<open>swing\<close>. So for every event table and every fixed pitch-type and handedness selector the
  rows of the table filtered by \<open>swinging strike\<close> are a subsequence of the rows of the table
  filtered by \<open>swing\<close>, and every whiff rate the scripts compute from a fetched table is
  between 0 and 100 whenever it is a number.
\<close>

theorem swinging_strike_within_swing:
  "map_of descriptions ''swinging strike'' =
     Some [''swinging_strike'', ''swinging_strike_blocked'', ''foul_tip''] \<and>
   (\<exists>sw. map_of descriptions ''swing'' = Some sw \<and>
      set [''swinging_strike'', ''swinging_strike_blocked'', ''foul_tip''] \<subset> set sw) \<and>
   (event_table T \<longrightarrow>
      (\<exists>N D. filter_engine T p ''swinging strike'' h = Inr N \<and>
         filter_engine T p ''swing'' h = Inr D \<and>
         subseq (rows N) (rows D) \<and> length (rows N) \<le> length (rows D))) \<and>
   (\<forall>x. pitch_whiff_rate fetched p = Inr x \<longrightarrow> 0 \<le> x \<and> x \<le> 100)"
proof (intro conjI impI allI)
  show "map_of descriptions ''swinging strike'' =
     Some [''swinging_strike'', ''swinging_strike_blocked'', ''foul_tip'']"
    by (simp add: descriptions_def)
  have "map_of descriptions ''swing'' = Some swing_codes"
    by (simp add: descriptions_def swing_codes_def)
  with swinging_strike_codes_subset
  show "\<exists>sw. map_of descriptions ''swing'' = Some sw \<and>
      set [''swinging_strike'', ''swinging_strike_blocked'', ''foul_tip''] \<subset> set sw"
    by (simp add: swinging_strike_codes_def)
next
  assume et: "event_table T"
  from swinging_strike_rows_subseq [of p h "rows T"]
  show "\<exists>N D. filter_engine T p ''swinging strike'' h = Inr N \<and>
         filter_engine T p ''swing'' h = Inr D \<and>
         subseq (rows N) (rows D) \<and> length (rows N) \<le> length (rows D)"
    by (simp add: filter_engine_rows [OF et] list_emb_length)
next
  fix x
  assume w: "pitch_whiff_rate fetched p = Inr x"
  show "0 \<le> x" "x \<le> 100"
  proof -
    have "0 \<le> x \<and> x \<le> 100"
    proof (cases "set columns22 \<subseteq> set (columns fetched)")
      case True
      let ?rows = "map (\<lambda>r. r |` set columns22) (rows fetched)"
      let ?N = "\<lparr>columns = columns22,
          rows = filter (\<lambda>r. pitch_type_selected p r \<and> description_selected ''swinging strike'' r \<and>
                              handedness_selected ''all'' r) ?rows\<rparr>"
      let ?D = "\<lparr>columns = columns22,
          rows = filter (\<lambda>r. pitch_type_selected p r \<and> description_selected ''swing'' r \<and>
                              handedness_selected ''all'' r) ?rows\<rparr>"
      from w True have "whiff_rate ?N ?D = Inr x"
        by (simp add: pitch_whiff_rate_def player_data_filtered_rows)
      moreover have "subseq (rows ?N) (rows ?D)"
        using swinging_strike_rows_subseq [of p "''all''" ?rows] by simp
      ultimately show ?thesis by (rule whiff_rate_Inr_bounds [rotated])
    next
      case False
      from player_data_filtered_KeyError [OF False, of p "''swinging strike''" "''all''"] w
      show ?thesis by (auto simp add: pitch_whiff_rate_def)
    qed
    then show "0 \<le> x" "x \<le> 100" by simp_all
  qed
qed

lemma fetched_example_columns: "set columns22 \<subseteq> set (columns fetched_example)"
  by (auto simp add: fetched_example_def)

lemma fetched_example_whiff_rate: "pitch_whiff_rate fetched_example ''all'' = Inr 0"
proof -
  let ?rows = "map (\<lambda>r. r |` set columns22) (rows fetched_example)"
  have c: "''description'' \<in> set columns22" by (simp add: columns22_def)
  have n: "filter (\<lambda>r. pitch_type_selected ''all'' r \<and> description_selected ''swinging strike'' r \<and>
                        handedness_selected ''all'' r) ?rows = []"
    by (simp add: fetched_example_def description_selected_swinging_strike description_in_def
        cell_of_def pitch_def c swinging_strike_codes_def)
  have d: "filter (\<lambda>r. pitch_type_selected ''all'' r \<and> description_selected ''swing'' r \<and>
                        handedness_selected ''all'' r) ?rows \<noteq> []"
    by (simp add: fetched_example_def description_selected_swing description_in_def
        cell_of_def pitch_def c swing_codes_def)
  show ?thesis
    unfolding pitch_whiff_rate_def player_data_filtered_rows [OF fetched_example_columns]
    using n d by (simp add: whiff_rate_empty_numerator)
qed

theorem swinging_strike_within_swing_witness:
  "event_table four_pitches \<and>
   (\<exists>N D. filter_engine four_pitches ''fastball'' ''swinging strike'' ''L'' = Inr N \<and>
      filter_engine four_pitches ''fastball'' ''swing'' ''L'' = Inr D \<and>
      subseq (rows N) (rows D)) \<and>
   pitch_whiff_rate fetched_example ''all'' = Inr 0 \<and> (0::rat) \<le> 0 \<and> (0::rat) \<le> 100"
proof -
  note th = swinging_strike_within_swing [where T = four_pitches and p = "''fastball''"
      and h = "''L''"]
  note th2 = swinging_strike_within_swing [where fetched = fetched_example and p = "''all''"]
  from th event_table_four_pitches
  have a: "\<exists>N D. filter_engine four_pitches ''fastball'' ''swinging strike'' ''L'' = Inr N \<and>
      filter_engine four_pitches ''fastball'' ''swing'' ''L'' = Inr D \<and>
      subseq (rows N) (rows D)"
    by blast
  from th2 fetched_example_whiff_rate have b: "(0::rat) \<le> 0 \<and> (0::rat) \<le> 100"
    by blast
  from a b event_table_four_pitches fetched_example_whiff_rate show ?thesis by simp
qed

section \<open>The mean of a column\<close>











end
